theory Spec2Isabelle
  imports Complex_Main "HOL-Library.Word"
begin

section \<open>Current shaping of the speed-limit simulation harness\<close>

text \<open>
  A shallow embedding of \<^verbatim>\<open>src/test_harnesses/simulate_speed_pid.c\<close>: the unit
  conversion, the two ramp shapers, the speed-limit PID and the body of the simulation
  loop. The function-local \<^verbatim>\<open>static\<close> variables of each stage become a record that
  the stage takes and returns; the global \<^verbatim>\<open>system_ms\<close> and the value behind the
  \<^verbatim>\<open>target_current\<close> pointer become arguments, and the value written back through
  the pointer is returned next to the new state.
\<close>

subsection \<open>Machine integers\<close>

type_synonym u8 = "8 word"
type_synonym u16 = "16 word"
type_synonym u32 = "32 word"
type_synonym i16 = "16 word" \<comment> \<open>\<^verbatim>\<open>int16_t\<close>: read with \<^const>\<open>sint\<close>\<close>

subsection \<open>Constants\<close>

definition WHEEL_CIRCUMFERENCE_MM :: u32 where
  "WHEEL_CIRCUMFERENCE_MM = 2268"

definition MAX_CURRENT_AMPS :: nat where
  "MAX_CURRENT_AMPS = 25"

definition CURRENT_RAMP_AMPS_S :: nat where
  "CURRENT_RAMP_AMPS_S = 8"

definition CURRENT_RAMP_DOWN_PERCENT_10MS :: u8 where
  "CURRENT_RAMP_DOWN_PERCENT_10MS = 5"

text \<open>\<^verbatim>\<open>uint16_t ramp_up_current_interval_ms = (MAX_CURRENT_AMPS * 10u) / CURRENT_RAMP_AMPS_S\<close>,
  a global that is never assigned again.\<close>

definition ramp_up_current_interval_ms :: u16 where
  "ramp_up_current_interval_ms = of_nat ((MAX_CURRENT_AMPS * 10) div CURRENT_RAMP_AMPS_S)"

subsection \<open>Unit conversion\<close>

text \<open>The product is at most \<open>255 * 100000\<close>, so it is the same in 32 and in 64 bits
  (\<^verbatim>\<open>unsigned long\<close>); the quotient is narrowed to \<^verbatim>\<open>uint16_t\<close>.\<close>

definition convert_wheel_speed_kph_to_rpm :: "u8 \<Rightarrow> u16" where
  "convert_wheel_speed_kph_to_rpm speed_kph =
     ucast (((ucast speed_kph :: u32) * 100000) div (WHEEL_CIRCUMFERENCE_MM * 6))"

subsection \<open>Elapsed time\<close>

text \<open>All three stages compute \<^verbatim>\<open>uint16_t time_diff = now - last\<close> (lines 35, 70 and
  119): a subtraction of two \<^verbatim>\<open>uint32_t\<close>, narrowed to 16 bits.\<close>

definition time_diff16 :: "u32 \<Rightarrow> u32 \<Rightarrow> u16" where
  "time_diff16 now prev = ucast (now - prev)"

subsection \<open>Ramp-up shaper\<close>

record ramp_up_state =
  ramp_up_target_current :: u8
  last_ramp_up_increment_ms :: u32

definition ramp_up_init :: ramp_up_state where
  "ramp_up_init = \<lparr>ramp_up_target_current = 0, last_ramp_up_increment_ms = 0\<rparr>"

definition apply_current_ramp_up ::
  "ramp_up_state \<Rightarrow> u32 \<Rightarrow> u8 \<Rightarrow> bool \<Rightarrow> ramp_up_state \<times> u8" where
  "apply_current_ramp_up s system_ms target_current enable =
     (if enable \<and> target_current > ramp_up_target_current s then
        let now = system_ms;
            time_diff = time_diff16 now (last_ramp_up_increment_ms s);
            s' = (if time_diff \<ge> ramp_up_current_interval_ms then
                    \<lparr>ramp_up_target_current = ramp_up_target_current s + 1,
                     last_ramp_up_increment_ms =
                       (if last_ramp_up_increment_ms s = 0 then now
                        else now - ucast (ucast (time_diff - ramp_up_current_interval_ms) :: u8))\<rparr>
                  else s)
        in (s', ramp_up_target_current s')
      else
        (\<lparr>ramp_up_target_current = target_current, last_ramp_up_increment_ms = 0\<rparr>,
         target_current))"

subsection \<open>Ramp-down shaper\<close>

record ramp_down_state =
  ramp_down_target_current :: u8
  last_ramp_down_decrement_ms :: u32

definition ramp_down_init :: ramp_down_state where
  "ramp_down_init = \<lparr>ramp_down_target_current = 0, last_ramp_down_decrement_ms = 0\<rparr>"

definition apply_current_ramp_down ::
  "ramp_down_state \<Rightarrow> u32 \<Rightarrow> u8 \<Rightarrow> bool \<Rightarrow> ramp_down_state \<times> u8" where
  "apply_current_ramp_down s system_ms target_current enable =
     (if enable \<and> target_current < ramp_down_target_current s then
        let now = system_ms;
            time_diff = time_diff16 now (last_ramp_down_decrement_ms s);
            s' = (if time_diff \<ge> 10 then
                    let diff = ramp_down_target_current s - target_current
                    in \<lparr>ramp_down_target_current =
                          (if diff \<ge> CURRENT_RAMP_DOWN_PERCENT_10MS
                           then ramp_down_target_current s - CURRENT_RAMP_DOWN_PERCENT_10MS
                           else ramp_down_target_current s - diff),
                        last_ramp_down_decrement_ms =
                          (if last_ramp_down_decrement_ms s = 0 then now
                           else now - ucast (ucast (time_diff - 10) :: u8))\<rparr>
                  else s)
        in (s', ramp_down_target_current s')
      else
        (\<lparr>ramp_down_target_current = target_current, last_ramp_down_decrement_ms = 0\<rparr>,
         target_current))"

subsection \<open>Speed-limit PID\<close>

text \<open>
  The PID computes in \<^verbatim>\<open>float\<close>. A float value is modelled by the real number it
  denotes and every float operation as the exact operation followed by the rounding
  \<open>rnd\<close> of the platform's format, which the model takes as a parameter: nothing below
  depends on which rounding it is. Conversions of the integers of this program to
  \<^verbatim>\<open>float\<close> are exact (their magnitude is below \<open>2 ^ 16\<close>), the conversion back to
  \<^verbatim>\<open>int16_t\<close> truncates towards zero. The accumulator starts at zero and is clamped to
  a finite interval at every evaluation, so no infinity or NaN arises.
\<close>

definition SPEED_LIMIT_PID_KP :: "(real \<Rightarrow> real) \<Rightarrow> real" where
  "SPEED_LIMIT_PID_KP rnd = rnd (10 / 100)"

definition SPEED_LIMIT_PID_KI_X005 :: "(real \<Rightarrow> real) \<Rightarrow> real" where
  "SPEED_LIMIT_PID_KI_X005 rnd = rnd (4 / 1000)"

definition SPEED_LIMIT_PID_KD_X5 :: "(real \<Rightarrow> real) \<Rightarrow> real" where
  "SPEED_LIMIT_PID_KD_X5 rnd = rnd (1 / 100)"

definition float_of_i16 :: "i16 \<Rightarrow> real" where
  "float_of_i16 x = of_int (sint x)"

definition float_of_u8 :: "u8 \<Rightarrow> real" where
  "float_of_u8 x = of_nat (unat x)"

definition i16_of_float :: "real \<Rightarrow> i16" where
  "i16_of_float x = word_of_int (if x < 0 then \<lceil>x\<rceil> else \<lfloor>x\<rfloor>)"

text \<open>\<^verbatim>\<open>CLAMP(x, min, max)\<close> expands to
  \<^verbatim>\<open>(((x) > (min) ? (x) : (min)) < (max) ? ((x) > (min) ? (x) : (min)) : (max))\<close>.\<close>

definition MAX_f :: "real \<Rightarrow> real \<Rightarrow> real" where
  "MAX_f x y = (if x > y then x else y)"

definition MIN_f :: "real \<Rightarrow> real \<Rightarrow> real" where
  "MIN_f x y = (if x < y then x else y)"

definition CLAMP :: "real \<Rightarrow> real \<Rightarrow> real \<Rightarrow> real" where
  "CLAMP x lo hi = MIN_f (MAX_f x lo) hi"

record pid_state =
  last_pid_ms :: u32
  last_speed_rpm_x10 :: u16
  clamped_output :: u8
  i_term :: real
  speed_limiting :: bool

definition pid_init :: pid_state where
  "pid_init = \<lparr>last_pid_ms = 50, last_speed_rpm_x10 = 0, clamped_output = 0,
                i_term = 0, speed_limiting = False\<rparr>"

text \<open>The evaluation of lines 122 to 151, entered when \<^verbatim>\<open>time_diff >= 60\<close>.\<close>

definition pid_evaluate ::
  "(real \<Rightarrow> real) \<Rightarrow> u16 \<Rightarrow> pid_state \<Rightarrow> u32 \<Rightarrow> u16 \<Rightarrow> u8 \<Rightarrow> u16 \<Rightarrow> pid_state" where
  "pid_evaluate rnd max_speed_rpm_x10 s now_ms time_diff target_current current_speed =
     (let current_speed_rpm_x10 = convert_wheel_speed_kph_to_rpm (ucast current_speed) * 10;
          s1 = (if time_diff \<ge> 2000
                then s\<lparr>last_speed_rpm_x10 := current_speed_rpm_x10,
                       i_term := float_of_u8 target_current\<rparr>
                else s);
          error = (max_speed_rpm_x10 - current_speed_rpm_x10 :: i16);
          i1 = rnd (i_term s1 + rnd (SPEED_LIMIT_PID_KI_X005 rnd * float_of_i16 error));
          i2 = CLAMP i1 0 (float_of_u8 target_current);
          d_input = (current_speed_rpm_x10 - last_speed_rpm_x10 s1 :: i16);
          output = i16_of_float
                     (rnd (rnd (rnd (SPEED_LIMIT_PID_KP rnd * float_of_i16 error) + i2)
                           - rnd (SPEED_LIMIT_PID_KD_X5 rnd * float_of_i16 d_input)));
          c = (if sint output < 1 then 1
               else if sint output > uint target_current then target_current
               else ucast output)
      in s1\<lparr>i_term := i2, clamped_output := c,
            last_speed_rpm_x10 := current_speed_rpm_x10, last_pid_ms := now_ms\<rparr>)"

text \<open>The source calls the conversion with the literal 25 (km/h); the ceiling is an
  argument here and \<open>apply_speed_limit\<close> below fixes it to 25.\<close>

definition apply_speed_limit_kph ::
  "u8 \<Rightarrow> (real \<Rightarrow> real) \<Rightarrow> pid_state \<Rightarrow> u32 \<Rightarrow> u8 \<Rightarrow> u16 \<Rightarrow> pid_state \<times> u8" where
  "apply_speed_limit_kph max_kph rnd s system_ms target_current current_speed =
     (let max_speed_rpm_x10 = convert_wheel_speed_kph_to_rpm max_kph * 10 in
      if max_speed_rpm_x10 > 0 \<and> target_current > 0 then
        let now_ms = system_ms;
            time_diff = time_diff16 now_ms (last_pid_ms s);
            s1 = (if time_diff \<ge> 60
                  then pid_evaluate rnd max_speed_rpm_x10 s now_ms time_diff
                         target_current current_speed
                  else s)
        in if target_current > clamped_output s1
           then (s1\<lparr>speed_limiting := True\<rparr>, clamped_output s1)
           else (s1\<lparr>speed_limiting := False\<rparr>, target_current)
      else (s, target_current))"

definition apply_speed_limit ::
  "(real \<Rightarrow> real) \<Rightarrow> pid_state \<Rightarrow> u32 \<Rightarrow> u8 \<Rightarrow> u16 \<Rightarrow> pid_state \<times> u8" where
  "apply_speed_limit = apply_speed_limit_kph 25"

subsection \<open>One control tick and a run of ticks\<close>

text \<open>The body of the simulation loop of \<^verbatim>\<open>main\<close>: the clock and the request are
  set, then the three stages run in order on \<^verbatim>\<open>target_current\<close>, both shapers
  enabled. The measured speed, which \<^verbatim>\<open>main\<close> takes from its bike dynamics, is an
  input of the tick.\<close>

record control_state =
  pid :: pid_state
  up :: ramp_up_state
  down :: ramp_down_state

definition control_init :: control_state where
  "control_init = \<lparr>pid = pid_init, up = ramp_up_init, down = ramp_down_init\<rparr>"

definition control_tick ::
  "(real \<Rightarrow> real) \<Rightarrow> control_state \<Rightarrow> u32 \<Rightarrow> u8 \<Rightarrow> u16 \<Rightarrow> control_state \<times> u8" where
  "control_tick rnd st system_ms request speed =
     (let (p, c1) = apply_speed_limit rnd (pid st) system_ms request speed;
          (u, c2) = apply_current_ramp_up (up st) system_ms c1 True;
          (d, c3) = apply_current_ramp_down (down st) system_ms c2 True
      in (\<lparr>pid = p, up = u, down = d\<rparr>, c3))"

text \<open>A run: one tick per element (clock, requested current, measured speed); the
  result is the list of shaped outputs, one per tick.\<close>

fun run_ticks ::
  "(real \<Rightarrow> real) \<Rightarrow> control_state \<Rightarrow> (u32 \<times> u8 \<times> u16) list \<Rightarrow> u8 list" where
  "run_ticks rnd st [] = []"
| "run_ticks rnd st ((t, request, speed) # ticks) =
     (let (st', out) = control_tick rnd st t request speed
      in out # run_ticks rnd st' ticks)"

subsection \<open>A sustained request on the ramp-down shaper\<close>

text \<open>The ramp-down shaper called once per clock value of a list, enabled, with the
  same request every time; \<open>ramp_down_due\<close> says that every call of that run which
  finds the request below the ramp target also finds \<^verbatim>\<open>time_diff >= 10\<close>.\<close>

fun ramp_down_run :: "ramp_down_state \<Rightarrow> u8 \<Rightarrow> u32 list \<Rightarrow> ramp_down_state" where
  "ramp_down_run s request [] = s"
| "ramp_down_run s request (t # ts) =
     ramp_down_run (fst (apply_current_ramp_down s t request True)) request ts"

fun ramp_down_due :: "ramp_down_state \<Rightarrow> u8 \<Rightarrow> u32 list \<Rightarrow> bool" where
  "ramp_down_due s request [] = True"
| "ramp_down_due s request (t # ts) =
     ((if request < ramp_down_target_current s
       then time_diff16 t (last_ramp_down_decrement_ms s) \<ge> 10 else True)
      \<and> ramp_down_due (fst (apply_current_ramp_down s t request True)) request ts)"

section \<open>Verified properties\<close>

subsection \<open>Constants and conversions\<close>

lemma ramp_up_interval_value: "ramp_up_current_interval_ms = 31"
  by (simp add: ramp_up_current_interval_ms_def MAX_CURRENT_AMPS_def CURRENT_RAMP_AMPS_S_def)

lemma max_speed_rpm_x10_value: "convert_wheel_speed_kph_to_rpm 25 * 10 = 1830"
  by (simp add: convert_wheel_speed_kph_to_rpm_def WHEEL_CIRCUMFERENCE_MM_def)

lemma unat_ucast_32_16: "unat (ucast (x :: u32) :: u16) = unat x mod 65536"
  by (simp add: unsigned_ucast_eq take_bit_eq_mod)

lemma unat_ucast_16_8: "unat (ucast (x :: u16) :: u8) = unat x mod 256"
  by (simp add: unsigned_ucast_eq take_bit_eq_mod)

lemmas stage_defs =
  apply_current_ramp_up_def apply_current_ramp_down_def apply_speed_limit_def
  apply_speed_limit_kph_def pid_evaluate_def control_tick_def time_diff16_def
  convert_wheel_speed_kph_to_rpm_def WHEEL_CIRCUMFERENCE_MM_def
  ramp_up_interval_value CURRENT_RAMP_DOWN_PERCENT_10MS_def
  SPEED_LIMIT_PID_KP_def SPEED_LIMIT_PID_KI_X005_def SPEED_LIMIT_PID_KD_X5_def
  float_of_i16_def float_of_u8_def i16_of_float_def MAX_f_def MIN_f_def CLAMP_def
  control_init_def pid_init_def ramp_up_init_def ramp_down_init_def Let_def

subsection \<open>Resynchronisation of the shapers\<close>

text \<open>
  Claim C7. When a shaper is called disabled, or when the request is not strictly above
  (ramp-up) or not strictly below (ramp-down) its internal ramp target, the call returns
  the request unchanged, stores the request as the new ramp target and resets the stored
  timestamp to 0, the unset value; whatever ramp progress the state held is gone.
\<close>

theorem shapers_resynchronise:
  "(\<not> (enable \<and> target_current > ramp_up_target_current s) \<longrightarrow>
      apply_current_ramp_up s now target_current enable =
        (\<lparr>ramp_up_target_current = target_current, last_ramp_up_increment_ms = 0\<rparr>,
         target_current))
   \<and> (\<not> (enable_d \<and> request_d < ramp_down_target_current d) \<longrightarrow>
      apply_current_ramp_down d now_d request_d enable_d =
        (\<lparr>ramp_down_target_current = request_d, last_ramp_down_decrement_ms = 0\<rparr>,
         request_d))"
  by (simp add: apply_current_ramp_up_def apply_current_ramp_down_def)

text \<open>A disabled ramp-up in the middle of a ramp (target 40, request 90) and a ramp-down
  whose request (30) is above its target (20).\<close>

theorem shapers_resynchronise_witness:
  "\<not> (False \<and> (90 :: u8) > ramp_up_target_current
        \<lparr>ramp_up_target_current = 40, last_ramp_up_increment_ms = 977\<rparr>)
   \<and> apply_current_ramp_up \<lparr>ramp_up_target_current = 40, last_ramp_up_increment_ms = 977\<rparr>
        1000 90 False
      = (\<lparr>ramp_up_target_current = 90, last_ramp_up_increment_ms = 0\<rparr>, 90)
   \<and> \<not> (True \<and> (30 :: u8) < ramp_down_target_current
        \<lparr>ramp_down_target_current = 20, last_ramp_down_decrement_ms = 995\<rparr>)
   \<and> apply_current_ramp_down \<lparr>ramp_down_target_current = 20, last_ramp_down_decrement_ms = 995\<rparr>
        1000 30 True
      = (\<lparr>ramp_down_target_current = 30, last_ramp_down_decrement_ms = 0\<rparr>, 30)"
  using shapers_resynchronise
    [where enable = False and target_current = 90 and now = 1000
       and s = "\<lparr>ramp_up_target_current = 40, last_ramp_up_increment_ms = 977\<rparr>"
       and enable_d = True and request_d = 30 and now_d = 1000
       and d = "\<lparr>ramp_down_target_current = 20, last_ramp_down_decrement_ms = 995\<rparr>"]
  by simp

subsection \<open>The speed limiter\<close>

text \<open>
  Claim C8. When the speed ceiling (in RPM x 10) is zero or the input target current is
  zero, the speed limiter returns its input unmodified together with the very state it
  was given: integral accumulator, last speed sample, last evaluation timestamp, clamped
  output and limiting flag are all untouched. With the ceiling of the source, 25 km/h,
  this is the case of a zero request.
\<close>

theorem speed_limit_noop:
  "(convert_wheel_speed_kph_to_rpm max_kph * 10 = 0 \<or> target_current = 0 \<longrightarrow>
      apply_speed_limit_kph max_kph rnd s now target_current speed = (s, target_current))
   \<and> apply_speed_limit rnd s now 0 speed = (s, 0)"
  by (auto simp: apply_speed_limit_def apply_speed_limit_kph_def Let_def)

text \<open>A zero ceiling with a full request, and a zero request under the 25 km/h ceiling,
  both on a state in which an evaluation would otherwise be due.\<close>

theorem speed_limit_noop_witness:
  "(convert_wheel_speed_kph_to_rpm 0 * 10 = 0 \<or> (100 :: u8) = 0)
   \<and> apply_speed_limit_kph 0 (\<lambda>x. x)
        \<lparr>last_pid_ms = 50, last_speed_rpm_x10 = 1700, clamped_output = 60, i_term = 42,
         speed_limiting = True\<rparr> 5000 100 30
      = (\<lparr>last_pid_ms = 50, last_speed_rpm_x10 = 1700, clamped_output = 60, i_term = 42,
          speed_limiting = True\<rparr>, 100)
   \<and> apply_speed_limit (\<lambda>x. x)
        \<lparr>last_pid_ms = 50, last_speed_rpm_x10 = 1700, clamped_output = 60, i_term = 42,
         speed_limiting = True\<rparr> 5000 0 30
      = (\<lparr>last_pid_ms = 50, last_speed_rpm_x10 = 1700, clamped_output = 60, i_term = 42,
          speed_limiting = True\<rparr>, 0)"
  using speed_limit_noop
    [where max_kph = 0 and target_current = 100 and rnd = "\<lambda>x. x" and now = 5000 and speed = 30
       and s = "\<lparr>last_pid_ms = 50, last_speed_rpm_x10 = 1700, clamped_output = 60,
                 i_term = 42, speed_limiting = True\<rparr>"]
  by (simp add: convert_wheel_speed_kph_to_rpm_def)

text \<open>
  Claim C3. At every call in which the elapsed-time guard admits a PID evaluation (the
  request is positive and \<^verbatim>\<open>time_diff >= 60\<close>), the integral accumulator stored by
  the call lies in the closed interval from 0 to the target current the limiter was
  called with, whatever the rounding of the float arithmetic.
\<close>

theorem i_term_clamped_at_evaluation:
  assumes "0 < target_current" and "60 \<le> time_diff16 now (last_pid_ms s)"
  shows "0 \<le> i_term (fst (apply_speed_limit rnd s now target_current speed))
       \<and> i_term (fst (apply_speed_limit rnd s now target_current speed))
           \<le> float_of_u8 target_current"
proof -
  have "0 \<le> float_of_u8 target_current"
    unfolding float_of_u8_def by (rule of_nat_0_le_iff)
  then have "0 \<le> CLAMP x 0 (float_of_u8 target_current)
      \<and> CLAMP x 0 (float_of_u8 target_current) \<le> float_of_u8 target_current" for x
    by (simp add: CLAMP_def MIN_f_def MAX_f_def)
  then show ?thesis
    using assms
    by (simp add: apply_speed_limit_def apply_speed_limit_kph_def max_speed_rpm_x10_value
          Let_def pid_evaluate_def)
qed

text \<open>Wheel well above the ceiling (40 km/h) with a small accumulator: the sum goes
  negative and is clamped to 0.\<close>

theorem i_term_clamped_at_evaluation_witness:
  "0 < (80 :: u8)
   \<and> 60 \<le> time_diff16 1100 (last_pid_ms
        \<lparr>last_pid_ms = 1000, last_speed_rpm_x10 = 2900, clamped_output = 7, i_term = 3,
         speed_limiting = True\<rparr>)
   \<and> i_term (fst (apply_speed_limit (\<lambda>x. x)
        \<lparr>last_pid_ms = 1000, last_speed_rpm_x10 = 2900, clamped_output = 7, i_term = 3,
         speed_limiting = True\<rparr> 1100 80 40)) = 0
   \<and> (0 :: real) \<le> float_of_u8 80"
  using i_term_clamped_at_evaluation
    [where target_current = 80 and now = 1100 and rnd = "\<lambda>x. x" and speed = 40
       and s = "\<lparr>last_pid_ms = 1000, last_speed_rpm_x10 = 2900, clamped_output = 7,
                 i_term = 3, speed_limiting = True\<rparr>"]
  by (simp add: stage_defs)

text \<open>The three-way clamp of lines 141 to 147.\<close>

lemma clamp_output_range:
  fixes outp :: i16 and target_current :: u8
  assumes "0 < target_current"
  defines "c \<equiv> (if sint outp < 1 then 1
                else if sint outp > uint target_current then target_current
                else ucast outp)"
  shows "1 \<le> c \<and> c \<le> target_current"
proof -
  have t1: "1 \<le> target_current"
    using assms(1) by (simp add: word_le_nat_alt word_less_nat_alt)
  show ?thesis
  proof (cases "sint outp < 1")
    case True
    then show ?thesis using t1 by (simp add: c_def)
  next
    case False
    show ?thesis
    proof (cases "sint outp > uint target_current")
      case True
      then show ?thesis using False t1 by (simp add: c_def)
    next
      case le: False
      have "uint target_current < 256" using uint_bounded[of target_current] by simp
      with le False
      have r: "1 \<le> sint outp" "sint outp \<le> uint target_current" "sint outp < 256"
        by auto
      have "uint outp = sint outp"
        using r by (simp add: uint_sint take_bit_eq_mod)
      then have u: "uint (ucast outp :: u8) = sint outp"
        using r by (simp add: unsigned_ucast_eq take_bit_eq_mod)
      show ?thesis using False le r u by (simp add: c_def word_le_def)
    qed
  qed
qed

lemma speed_limit_le:
  "snd (apply_speed_limit rnd s now target_current speed) \<le> target_current"
  by (auto simp: apply_speed_limit_def apply_speed_limit_kph_def Let_def)

lemma pid_evaluate_clamped:
  assumes "0 < target_current"
  shows "1 \<le> clamped_output (pid_evaluate rnd m s now td target_current speed)
       \<and> clamped_output (pid_evaluate rnd m s now td target_current speed) \<le> target_current"
  using clamp_output_range[OF assms] by (simp add: pid_evaluate_def Let_def)

text \<open>
  What the limiter guarantees about its output. Every call returns a current that is at
  most its input. Whenever the PID evaluates (positive request, \<^verbatim>\<open>time_diff >= 60\<close>),
  the output it commits lies in the closed interval from 1 to the input target current,
  and so does the current returned by that call. The committed output is kept until the
  next evaluation, so once it is at least 1 every later call with a positive request
  also returns at least 1.
\<close>

lemma speed_limit_never_raises_and_clamps:
  "snd (apply_speed_limit rnd s now target_current speed) \<le> target_current
   \<and> (0 < target_current \<and> 60 \<le> time_diff16 now (last_pid_ms s) \<longrightarrow>
        1 \<le> clamped_output (fst (apply_speed_limit rnd s now target_current speed))
      \<and> clamped_output (fst (apply_speed_limit rnd s now target_current speed))
          \<le> target_current
      \<and> 1 \<le> snd (apply_speed_limit rnd s now target_current speed))
   \<and> (0 < target_current \<and> 1 \<le> clamped_output s \<longrightarrow>
        1 \<le> clamped_output (fst (apply_speed_limit rnd s now target_current speed))
      \<and> 1 \<le> snd (apply_speed_limit rnd s now target_current speed))"
proof -
  let ?e = "pid_evaluate rnd 1830 s now (time_diff16 now (last_pid_ms s)) target_current speed"
  have ev: "1 \<le> clamped_output ?e \<and> clamped_output ?e \<le> target_current"
    if "0 < target_current"
    using that by (rule pid_evaluate_clamped)
  have pos: "1 \<le> target_current" if "0 < target_current"
    using that by (simp add: word_le_nat_alt word_less_nat_alt)
  have a: "snd (apply_speed_limit rnd s now target_current speed) \<le> target_current"
    by (rule speed_limit_le)
  have b: "1 \<le> clamped_output (fst (apply_speed_limit rnd s now target_current speed))
      \<and> clamped_output (fst (apply_speed_limit rnd s now target_current speed))
          \<le> target_current
      \<and> 1 \<le> snd (apply_speed_limit rnd s now target_current speed)"
    if h: "0 < target_current" "60 \<le> time_diff16 now (last_pid_ms s)"
    using ev[OF h(1)] pos[OF h(1)] h
    by (simp add: apply_speed_limit_def apply_speed_limit_kph_def Let_def
          max_speed_rpm_x10_value)
  have c: "1 \<le> clamped_output (fst (apply_speed_limit rnd s now target_current speed))
      \<and> 1 \<le> snd (apply_speed_limit rnd s now target_current speed)"
    if h: "0 < target_current" "1 \<le> clamped_output s"
    using ev[OF h(1)] pos[OF h(1)] h
    by (simp add: apply_speed_limit_def apply_speed_limit_kph_def Let_def
          max_speed_rpm_x10_value)
  from a b c show ?thesis by blast
qed

text \<open>An evaluation at 30 km/h, above the ceiling, with a request of 80: the PID output
  is negative and the committed output is the floor, 1.\<close>

lemma speed_limit_never_raises_and_clamps_example:
  "0 < (80 :: u8)
   \<and> 60 \<le> time_diff16 1100 (last_pid_ms
        \<lparr>last_pid_ms = 1000, last_speed_rpm_x10 = 2200, clamped_output = 7, i_term = 3,
         speed_limiting = True\<rparr>)
   \<and> 1 \<le> clamped_output
        \<lparr>last_pid_ms = 1000, last_speed_rpm_x10 = 2200, clamped_output = 7, i_term = 3,
         speed_limiting = True\<rparr>
   \<and> apply_speed_limit (\<lambda>x. x)
        \<lparr>last_pid_ms = 1000, last_speed_rpm_x10 = 2200, clamped_output = 7, i_term = 3,
         speed_limiting = True\<rparr> 1100 80 30
      = (\<lparr>last_pid_ms = 1100, last_speed_rpm_x10 = 2200, clamped_output = 1, i_term = 38 / 25,
          speed_limiting = True\<rparr>, 1)
   \<and> (1 :: u8) \<le> 80"
  using speed_limit_never_raises_and_clamps
    [where target_current = 80 and now = 1100 and rnd = "\<lambda>x. x" and speed = 30
       and s = "\<lparr>last_pid_ms = 1000, last_speed_rpm_x10 = 2200, clamped_output = 7,
                 i_term = 3, speed_limiting = True\<rparr>"]
  by (simp add: stage_defs)

text \<open>
  Claim C2 says that every call returns at most its input, that an evaluating call
  commits an output in the closed interval from 1 to its input, and that the limiter
  therefore never drives the current below 1 while it is limiting. The first two parts
  hold (lemma \<open>speed_limit_never_raises_and_clamps\<close>); the floor does not hold before
  the first evaluation. The statics start with \<^verbatim>\<open>last_pid_ms = 50\<close> and
  \<^verbatim>\<open>clamped_output\<close> zero, so a first call at a clock value from 50 to 109 finds
  \<^verbatim>\<open>time_diff < 60\<close>, skips the evaluation and with it the clamp of lines 141 to 147,
  finds the request above the stored output 0, sets the limiting flag and returns 0,
  whatever the speed and the float rounding: here for a request of 100 at clock 50 and
  for a request of 1 at clock 109.
\<close>

theorem speed_limit_zero_before_first_evaluation:
  "apply_speed_limit rnd pid_init 50 100 speed = (pid_init\<lparr>speed_limiting := True\<rparr>, 0)
   \<and> apply_speed_limit rnd pid_init 109 1 speed = (pid_init\<lparr>speed_limiting := True\<rparr>, 0)"
  by (simp add: apply_speed_limit_def apply_speed_limit_kph_def max_speed_rpm_x10_value
        time_diff16_def pid_init_def Let_def)

subsection \<open>Timing of the shapers\<close>

lemma time_diff16_exact:
  "d < 65536 \<Longrightarrow> unat (time_diff16 (since + of_nat d) since) = d"
  by (simp add: time_diff16_def unsigned_ucast_eq take_bit_eq_mod unat_of_nat)

lemma overshoot_u8:
  "c \<le> td \<Longrightarrow>
   (ucast (ucast (td - c :: u16) :: u8) :: u32) = of_nat ((unat td - unat c) mod 256)"
proof -
  assume "c \<le> td"
  then have "unat (td - c) = unat td - unat c" by (rule unat_sub)
  then have "unat (ucast (td - c) :: u8) = (unat td - unat c) mod 256"
    by (simp add: unat_ucast_16_8)
  moreover have "(ucast (ucast (td - c) :: u8) :: u32) = of_nat (unat (ucast (td - c) :: u8))"
    by simp
  ultimately show ?thesis by simp
qed

text \<open>
  Elapsed time within one call. The three stages measure elapsed time as the 32-bit
  difference of the clock and the stored timestamp, narrowed to 16 bits, with no signed
  comparison. So when the clock stands \<open>d\<close> milliseconds after the stored timestamp,
  \<open>d\<close> below \<open>2 ^ 16\<close>, the computed difference is exactly \<open>d\<close>, also when the 32-bit
  clock has wrapped in between; the ramp-up steps exactly when \<open>d\<close> is at least 31, the
  ramp-down exactly when it is at least 10, and the PID commits an evaluation exactly
  when it is at least 60.
\<close>

lemma elapsed_time_exact_across_wrap:
  assumes "d < 65536"
  shows "unat (time_diff16 (since + of_nat d) since) = d
   \<and> (ramp_up_target_current s < target_current \<longrightarrow>
        ramp_up_target_current (fst (apply_current_ramp_up
            (s\<lparr>last_ramp_up_increment_ms := since\<rparr>) (since + of_nat d) target_current True))
        = (if 31 \<le> d then ramp_up_target_current s + 1 else ramp_up_target_current s))
   \<and> (request_d < ramp_down_target_current r \<longrightarrow>
        ramp_down_target_current (fst (apply_current_ramp_down
            (r\<lparr>last_ramp_down_decrement_ms := since\<rparr>) (since + of_nat d) request_d True))
        = (if 10 \<le> d
           then (if 5 \<le> ramp_down_target_current r - request_d
                 then ramp_down_target_current r - 5 else request_d)
           else ramp_down_target_current r))
   \<and> (0 < request_p \<longrightarrow>
        last_pid_ms (fst (apply_speed_limit rnd
            (p\<lparr>last_pid_ms := since\<rparr>) (since + of_nat d) request_p speed))
        = (if 60 \<le> d then since + of_nat d else since))"
proof -
  have a: "unat (time_diff16 (since + of_nat d) since) = d"
    using assms by (rule time_diff16_exact)
  have le: "((of_nat k :: u16) \<le> time_diff16 (since + of_nat d) since) = (k \<le> d)"
    if "k < 65536" for k
    using that by (simp add: word_le_nat_alt a unat_of_nat)
  have up: "ramp_up_target_current (fst (apply_current_ramp_up
            (s\<lparr>last_ramp_up_increment_ms := since\<rparr>) (since + of_nat d) target_current True))
        = (if 31 \<le> d then ramp_up_target_current s + 1 else ramp_up_target_current s)"
    if "ramp_up_target_current s < target_current"
    using that le[of 31]
    by (simp add: apply_current_ramp_up_def Let_def ramp_up_interval_value)
  have dn: "ramp_down_target_current (fst (apply_current_ramp_down
            (r\<lparr>last_ramp_down_decrement_ms := since\<rparr>) (since + of_nat d) request_d True))
        = (if 10 \<le> d
           then (if 5 \<le> ramp_down_target_current r - request_d
                 then ramp_down_target_current r - 5 else request_d)
           else ramp_down_target_current r)"
    if "request_d < ramp_down_target_current r"
    using that le[of 10]
    by (simp add: apply_current_ramp_down_def Let_def CURRENT_RAMP_DOWN_PERCENT_10MS_def)
  have pd: "last_pid_ms (fst (apply_speed_limit rnd
            (p\<lparr>last_pid_ms := since\<rparr>) (since + of_nat d) request_p speed))
        = (if 60 \<le> d then since + of_nat d else since)"
    if "0 < request_p"
    using that le[of 60]
    by (simp add: apply_speed_limit_def apply_speed_limit_kph_def max_speed_rpm_x10_value
          Let_def pid_evaluate_def)
  from a up dn pd show ?thesis by blast
qed

text \<open>The stored timestamp is 10 ms before the 32-bit clock wraps and the call comes
  70 ms after it, at clock value 60: all three stages measure 70 and act.\<close>

lemma elapsed_time_exact_across_wrap_example:
  "(70 :: nat) < 65536
   \<and> (4294967286 :: u32) + of_nat 70 = 60
   \<and> unat (time_diff16 60 4294967286) = 70
   \<and> ramp_up_target_current \<lparr>ramp_up_target_current = 20, last_ramp_up_increment_ms = 0\<rparr>
        < (90 :: u8)
   \<and> ramp_up_target_current (fst (apply_current_ramp_up
        \<lparr>ramp_up_target_current = 20, last_ramp_up_increment_ms = 4294967286\<rparr> 60 90 True))
      = 21
   \<and> (30 :: u8) < ramp_down_target_current
        \<lparr>ramp_down_target_current = 50, last_ramp_down_decrement_ms = 0\<rparr>
   \<and> ramp_down_target_current (fst (apply_current_ramp_down
        \<lparr>ramp_down_target_current = 50, last_ramp_down_decrement_ms = 4294967286\<rparr> 60 30 True))
      = 45
   \<and> 0 < (80 :: u8)
   \<and> last_pid_ms (fst (apply_speed_limit (\<lambda>x. x)
        \<lparr>last_pid_ms = 4294967286, last_speed_rpm_x10 = 2200, clamped_output = 7, i_term = 3,
         speed_limiting = True\<rparr> 60 80 30))
      = 60"
proof -
  have w: "(4294967286 :: u32) + of_nat 70 = 60" by simp
  show ?thesis
    using w elapsed_time_exact_across_wrap
      [where d = 70 and since = 4294967286 and target_current = 90 and request_d = 30
         and request_p = 80 and rnd = "\<lambda>x. x" and speed = 30
         and s = "\<lparr>ramp_up_target_current = 20, last_ramp_up_increment_ms = 0\<rparr>"
         and r = "\<lparr>ramp_down_target_current = 50, last_ramp_down_decrement_ms = 0\<rparr>"
         and p = "\<lparr>last_pid_ms = 0, last_speed_rpm_x10 = 2200, clamped_output = 7,
                   i_term = 3, speed_limiting = True\<rparr>", unfolded w]
    by simp
qed

text \<open>
  Claim C4 says that all elapsed-time computations are modular, that the computed time
  difference is the true elapsed time whenever that is representable, and that a clock
  sequence crossing the wrap of the millisecond counter never produces an erroneous ramp
  evaluation. The first two parts hold (lemma \<open>elapsed_time_exact_across_wrap\<close>); the
  last does not, because the overshoot bookkeeping of lines 85 to 93 can store the
  timestamp 0 just after the wrap, and 0 is what the next call reads as unset. From the
  initial statics, the ramp-down shaper is resynchronised at a request of 50 and then
  called with request 0 at ten milliseconds before the wrap and 70, 75 and 80 ms after
  that call, at clock 60, 65 and 70. The call at clock 60 stores \<open>60 - 60 = 0\<close>; the
  call at clock 65 therefore stores 65 with no overshoot subtracted, and the call at
  clock 70 measures 5 ms and does not step: the ramp target ends at 35. The same calls
  with the same elapsed times away from the wrap (1000, then 1070, 1075 and 1080) step
  every time and end at 30.
\<close>

theorem ramp_down_step_lost_across_wrap:
  "ramp_down_run (fst (apply_current_ramp_down ramp_down_init 4294967000 50 True)) 0
      [4294967286, 60]
     = \<lparr>ramp_down_target_current = 40, last_ramp_down_decrement_ms = 0\<rparr>
   \<and> ramp_down_run (fst (apply_current_ramp_down ramp_down_init 4294967000 50 True)) 0
      [4294967286, 60, 65, 70]
     = \<lparr>ramp_down_target_current = 35, last_ramp_down_decrement_ms = 65\<rparr>
   \<and> ramp_down_run (fst (apply_current_ramp_down ramp_down_init 714 50 True)) 0
      [1000, 1070, 1075, 1080]
     = \<lparr>ramp_down_target_current = 30, last_ramp_down_decrement_ms = 1030\<rparr>"
  by (simp add: apply_current_ramp_down_def ramp_down_init_def time_diff16_def Let_def
        CURRENT_RAMP_DOWN_PERCENT_10MS_def)

text \<open>
  Claim C5, as the code has it. At a ramp-up increment or ramp-down decrement that finds
  a stored timestamp other than 0 (so not the first step since a resynchronisation), the
  new baseline is the clock minus the overshoot taken modulo 256, the overshoot being the
  16-bit elapsed time minus the interval (31 ms up, 10 ms down): the source narrows the
  overshoot to \<^verbatim>\<open>uint8_t\<close> before subtracting it. Hence the whole overshoot is
  subtracted whenever it is below 256 ms.
\<close>

theorem overshoot_subtracted_modulo_256:
  "(enable \<and> ramp_up_target_current s < target_current \<and> last_ramp_up_increment_ms s \<noteq> 0
      \<and> ramp_up_current_interval_ms \<le> time_diff16 now (last_ramp_up_increment_ms s) \<longrightarrow>
      last_ramp_up_increment_ms (fst (apply_current_ramp_up s now target_current enable)) =
        now - of_nat ((unat (time_diff16 now (last_ramp_up_increment_ms s)) - 31) mod 256))
   \<and> (enable_d \<and> request_d < ramp_down_target_current r \<and> last_ramp_down_decrement_ms r \<noteq> 0
      \<and> 10 \<le> time_diff16 now_d (last_ramp_down_decrement_ms r) \<longrightarrow>
      last_ramp_down_decrement_ms (fst (apply_current_ramp_down r now_d request_d enable_d)) =
        now_d - of_nat ((unat (time_diff16 now_d (last_ramp_down_decrement_ms r)) - 10) mod 256))"
  by (simp add: apply_current_ramp_up_def apply_current_ramp_down_def Let_def
        ramp_up_interval_value overshoot_u8)

text \<open>Ramp-up called 38 ms after its last increment (overshoot 7, new baseline 1031) and
  ramp-down called 14 ms after its last decrement (overshoot 4, new baseline 1010).\<close>

theorem overshoot_subtracted_modulo_256_witness:
  "ramp_up_target_current \<lparr>ramp_up_target_current = 10, last_ramp_up_increment_ms = 1000\<rparr>
        < (100 :: u8)
   \<and> last_ramp_up_increment_ms
        \<lparr>ramp_up_target_current = 10, last_ramp_up_increment_ms = 1000\<rparr> \<noteq> 0
   \<and> ramp_up_current_interval_ms \<le> time_diff16 1038 1000
   \<and> last_ramp_up_increment_ms (fst (apply_current_ramp_up
        \<lparr>ramp_up_target_current = 10, last_ramp_up_increment_ms = 1000\<rparr> 1038 100 True))
      = 1031
   \<and> (0 :: u8) < ramp_down_target_current
        \<lparr>ramp_down_target_current = 60, last_ramp_down_decrement_ms = 1000\<rparr>
   \<and> last_ramp_down_decrement_ms
        \<lparr>ramp_down_target_current = 60, last_ramp_down_decrement_ms = 1000\<rparr> \<noteq> 0
   \<and> 10 \<le> time_diff16 1014 1000
   \<and> last_ramp_down_decrement_ms (fst (apply_current_ramp_down
        \<lparr>ramp_down_target_current = 60, last_ramp_down_decrement_ms = 1000\<rparr> 1014 0 True))
      = 1010"
  using overshoot_subtracted_modulo_256
    [where enable = True and target_current = 100 and now = 1038
       and s = "\<lparr>ramp_up_target_current = 10, last_ramp_up_increment_ms = 1000\<rparr>"
       and enable_d = True and request_d = 0 and now_d = 1014
       and r = "\<lparr>ramp_down_target_current = 60, last_ramp_down_decrement_ms = 1000\<rparr>"]
  by (simp add: time_diff16_def ramp_up_interval_value)

text \<open>The claim as the specification states it (the whole overshoot subtracted, for
  every overshoot) fails for an overshoot of 256 ms: the ramp-up, last incremented at
  clock 1000, is called again at 1287, that is 287 ms later. The baseline it stores is
  1287, the clock itself, and not 1287 - (287 - 31) = 1031.\<close>

theorem overshoot_of_256_not_subtracted:
  "last_ramp_up_increment_ms (fst (apply_current_ramp_up
      \<lparr>ramp_up_target_current = 10, last_ramp_up_increment_ms = 1000\<rparr> 1287 100 True))
     = 1287
   \<and> (1287 :: u32) \<noteq> 1287 - (287 - 31)"
  by (simp add: apply_current_ramp_up_def Let_def ramp_up_interval_value time_diff16_def)

lemma ramp_up_resync:
  "\<not> (enable \<and> ramp_up_target_current s < held) \<Longrightarrow>
   apply_current_ramp_up s before held enable =
     (\<lparr>ramp_up_target_current = held, last_ramp_up_increment_ms = 0\<rparr>, held)"
  unfolding apply_current_ramp_up_def by (rule if_not_P)

lemma ramp_down_resync:
  "\<not> (enable \<and> held < ramp_down_target_current r) \<Longrightarrow>
   apply_current_ramp_down r before held enable =
     (\<lparr>ramp_down_target_current = held, last_ramp_down_decrement_ms = 0\<rparr>, held)"
  unfolding apply_current_ramp_down_def by (rule if_not_P)

lemma time_diff16_from_unset: "unat (time_diff16 now 0) = unat now mod 65536"
  by (simp add: time_diff16_def unat_ucast_32_16)

lemma ramp_up_step_from_unset:
  assumes "held < target_current"
  shows "fst (apply_current_ramp_up
            \<lparr>ramp_up_target_current = held, last_ramp_up_increment_ms = 0\<rparr>
            now target_current True) =
        (if 31 \<le> unat now mod 65536
         then \<lparr>ramp_up_target_current = held + 1, last_ramp_up_increment_ms = now\<rparr>
         else \<lparr>ramp_up_target_current = held, last_ramp_up_increment_ms = 0\<rparr>)"
proof -
  have "(31 \<le> time_diff16 now 0) = (31 \<le> unat now mod 65536)"
    by (simp add: word_le_nat_alt time_diff16_from_unset)
  with assms show ?thesis
    by (simp add: apply_current_ramp_up_def Let_def ramp_up_interval_value)
qed

lemma ramp_down_step_from_unset:
  assumes "request < held"
  shows "fst (apply_current_ramp_down
            \<lparr>ramp_down_target_current = held, last_ramp_down_decrement_ms = 0\<rparr>
            now request True) =
        (if 10 \<le> unat now mod 65536
         then \<lparr>ramp_down_target_current =
                 (if 5 \<le> held - request then held - 5 else request),
               last_ramp_down_decrement_ms = now\<rparr>
         else \<lparr>ramp_down_target_current = held, last_ramp_down_decrement_ms = 0\<rparr>)"
proof -
  have "(10 \<le> time_diff16 now 0) = (10 \<le> unat now mod 65536)"
    by (simp add: word_le_nat_alt time_diff16_from_unset)
  with assms show ?thesis
    by (simp add: apply_current_ramp_down_def Let_def CURRENT_RAMP_DOWN_PERCENT_10MS_def)
qed

text \<open>
  Claim C10. A resynchronisation stores 0 as the timestamp, and 0 is also a clock value.
  So the first call after a resynchronisation that finds the precondition true measures
  the elapsed time from clock value 0, not from the resynchronisation: whenever the
  resynchronising call was made, the shaper steps exactly when the clock reading modulo
  \<open>2 ^ 16\<close> is at least the interval (31 ms for ramp-up, 10 ms for ramp-down), and when
  it steps it stores the clock itself as the new baseline, with no overshoot subtracted.
\<close>

theorem first_step_after_resync:
  "(\<not> (enable \<and> ramp_up_target_current s < held) \<and> held < target_current \<longrightarrow>
      fst (apply_current_ramp_up (fst (apply_current_ramp_up s before held enable))
             now target_current True) =
        (if 31 \<le> unat now mod 65536
         then \<lparr>ramp_up_target_current = held + 1, last_ramp_up_increment_ms = now\<rparr>
         else \<lparr>ramp_up_target_current = held, last_ramp_up_increment_ms = 0\<rparr>))
   \<and> (\<not> (enable_d \<and> held_d < ramp_down_target_current r) \<and> request_d < held_d \<longrightarrow>
      fst (apply_current_ramp_down (fst (apply_current_ramp_down r before_d held_d enable_d))
             now_d request_d True) =
        (if 10 \<le> unat now_d mod 65536
         then \<lparr>ramp_down_target_current =
                 (if 5 \<le> held_d - request_d then held_d - 5 else request_d),
               last_ramp_down_decrement_ms = now_d\<rparr>
         else \<lparr>ramp_down_target_current = held_d, last_ramp_down_decrement_ms = 0\<rparr>))"
proof (intro conjI impI)
  assume h: "\<not> (enable \<and> ramp_up_target_current s < held) \<and> held < target_current"
  then have "fst (apply_current_ramp_up s before held enable) =
      \<lparr>ramp_up_target_current = held, last_ramp_up_increment_ms = 0\<rparr>"
    by (simp add: ramp_up_resync)
  with h show "fst (apply_current_ramp_up (fst (apply_current_ramp_up s before held enable))
             now target_current True) =
        (if 31 \<le> unat now mod 65536
         then \<lparr>ramp_up_target_current = held + 1, last_ramp_up_increment_ms = now\<rparr>
         else \<lparr>ramp_up_target_current = held, last_ramp_up_increment_ms = 0\<rparr>)"
    by (simp only: ramp_up_step_from_unset)
next
  assume h: "\<not> (enable_d \<and> held_d < ramp_down_target_current r) \<and> request_d < held_d"
  then have "fst (apply_current_ramp_down r before_d held_d enable_d) =
      \<lparr>ramp_down_target_current = held_d, last_ramp_down_decrement_ms = 0\<rparr>"
    by (simp add: ramp_down_resync)
  with h show "fst (apply_current_ramp_down (fst (apply_current_ramp_down r before_d held_d enable_d))
             now_d request_d True) =
        (if 10 \<le> unat now_d mod 65536
         then \<lparr>ramp_down_target_current =
                 (if 5 \<le> held_d - request_d then held_d - 5 else request_d),
               last_ramp_down_decrement_ms = now_d\<rparr>
         else \<lparr>ramp_down_target_current = held_d, last_ramp_down_decrement_ms = 0\<rparr>)"
    by (simp only: ramp_down_step_from_unset)
qed

text \<open>Ramp-up resynchronised at clock 1000 (request 20 equal to its target) steps at
  clock 1001, one millisecond after the request rose to 90; ramp-down resynchronised at
  clock 65530 does not step at clock 65541, eleven milliseconds after the request fell.\<close>

theorem first_step_after_resync_witness:
  "\<not> (True \<and> ramp_up_target_current
          \<lparr>ramp_up_target_current = 20, last_ramp_up_increment_ms = 990\<rparr> < (20 :: u8))
   \<and> (20 :: u8) < 90
   \<and> fst (apply_current_ramp_up (fst (apply_current_ramp_up
          \<lparr>ramp_up_target_current = 20, last_ramp_up_increment_ms = 990\<rparr> 1000 20 True))
        1001 90 True)
      = \<lparr>ramp_up_target_current = 21, last_ramp_up_increment_ms = 1001\<rparr>
   \<and> \<not> (True \<and> (70 :: u8) < ramp_down_target_current
          \<lparr>ramp_down_target_current = 70, last_ramp_down_decrement_ms = 65000\<rparr>)
   \<and> (0 :: u8) < 70
   \<and> fst (apply_current_ramp_down (fst (apply_current_ramp_down
          \<lparr>ramp_down_target_current = 70, last_ramp_down_decrement_ms = 65000\<rparr> 65530 70 True))
        65541 0 True)
      = \<lparr>ramp_down_target_current = 70, last_ramp_down_decrement_ms = 0\<rparr>"
  using first_step_after_resync
    [where enable = True and held = 20 and target_current = 90 and before = 1000
       and now = 1001
       and s = "\<lparr>ramp_up_target_current = 20, last_ramp_up_increment_ms = 990\<rparr>"
       and enable_d = True and held_d = 70 and request_d = 0 and before_d = 65530
       and now_d = 65541
       and r = "\<lparr>ramp_down_target_current = 70, last_ramp_down_decrement_ms = 65000\<rparr>"]
  by simp

subsection \<open>The ramp-down shaper\<close>

lemma ramp_down_step:
  assumes "enable" and "request < ramp_down_target_current s"
    and "10 \<le> time_diff16 now (last_ramp_down_decrement_ms s)"
  shows "ramp_down_target_current (fst (apply_current_ramp_down s now request enable)) =
           (if 5 \<le> ramp_down_target_current s - request
            then ramp_down_target_current s - 5 else request)"
  using assms
  by (simp add: apply_current_ramp_down_def Let_def CURRENT_RAMP_DOWN_PERCENT_10MS_def)

lemma ramp_down_target_is_output:
  "ramp_down_target_current (fst (apply_current_ramp_down s now target_current enable))
     = snd (apply_current_ramp_down s now target_current enable)"
  by (simp add: apply_current_ramp_down_def Let_def)

lemma unat_diff_below:
  fixes request target :: u8
  assumes "request < target"
  shows "unat (target - request) = unat target - unat request"
    and "unat request < unat target"
proof -
  from assms have "request \<le> target" by (simp add: less_imp_le)
  then show "unat (target - request) = unat target - unat request" by (rule unat_sub)
  from assms show "unat request < unat target" by (simp add: word_less_nat_alt)
qed

lemma unat_minus_5:
  fixes request target :: u8
  assumes "request < target" and "5 \<le> target - request"
  shows "unat (target - 5) = unat target - 5" and "unat request + 5 \<le> unat target"
proof -
  from assms have d: "5 \<le> unat target - unat request"
    by (simp add: word_le_nat_alt unat_diff_below(1))
  then have "(5 :: u8) \<le> target" by (simp add: word_le_nat_alt)
  then show "unat (target - 5) = unat target - 5" by (simp add: unat_sub)
  from d unat_diff_below(2)[OF assms(1)] show "unat request + 5 \<le> unat target" by simp
qed

lemma ramp_down_step_unat:
  assumes "request \<le> ramp_down_target_current s"
    and "request < ramp_down_target_current s \<Longrightarrow>
         10 \<le> time_diff16 now (last_ramp_down_decrement_ms s)"
  shows "unat (ramp_down_target_current (fst (apply_current_ramp_down s now request True))) =
           max (unat request) (unat (ramp_down_target_current s) - 5)"
proof (cases "request < ramp_down_target_current s")
  case True
  note step = ramp_down_step[OF _ True assms(2)[OF True], of True]
  show ?thesis
  proof (cases "5 \<le> ramp_down_target_current s - request")
    case ge: True
    from unat_minus_5[OF True ge] step ge show ?thesis by simp
  next
    case lt: False
    then have "unat (ramp_down_target_current s) - unat request < 5"
      by (simp add: word_le_nat_alt unat_diff_below(1)[OF True])
    with step lt unat_diff_below(2)[OF True] show ?thesis by simp
  qed
next
  case False
  with assms(1) have "request = ramp_down_target_current s" by simp
  then show ?thesis by (simp add: apply_current_ramp_down_def)
qed

lemma ramp_down_ge:
  assumes "request \<le> ramp_down_target_current s"
  shows "request \<le> ramp_down_target_current (fst (apply_current_ramp_down s now request enable))"
proof (cases "enable \<and> request < ramp_down_target_current s
              \<and> 10 \<le> time_diff16 now (last_ramp_down_decrement_ms s)")
  case True
  then have lt: "request < ramp_down_target_current s" by simp
  show ?thesis
  proof (cases "5 \<le> ramp_down_target_current s - request")
    case ge: True
    from unat_minus_5[OF lt ge] have "request \<le> ramp_down_target_current s - 5"
      by (simp add: word_le_nat_alt)
    with True ge show ?thesis
      by (simp add: apply_current_ramp_down_def Let_def CURRENT_RAMP_DOWN_PERCENT_10MS_def)
  next
    case False
    with True show ?thesis
      by (simp add: apply_current_ramp_down_def Let_def CURRENT_RAMP_DOWN_PERCENT_10MS_def)
  qed
next
  case False
  with assms show ?thesis
    by (auto simp: apply_current_ramp_down_def Let_def)
qed

lemma max_steps: "max (r :: nat) (max r (T - 5) - m) = max r (T - (5 + m))"
  by arith

lemma ramp_down_run_closed_form:
  assumes "request \<le> ramp_down_target_current s" and "ramp_down_due s request ts"
  shows "unat (ramp_down_target_current (ramp_down_run s request ts)) =
           max (unat request) (unat (ramp_down_target_current s) - 5 * length ts)"
  using assms
proof (induction ts arbitrary: s)
  case Nil
  then show ?case by (simp add: word_le_nat_alt)
next
  case (Cons t ts)
  let ?s' = "fst (apply_current_ramp_down s t request True)"
  have step: "unat (ramp_down_target_current ?s') =
      max (unat request) (unat (ramp_down_target_current s) - 5)"
    using Cons.prems by (intro ramp_down_step_unat) (auto split: if_splits)
  have "request \<le> ramp_down_target_current ?s'"
    using Cons.prems(1) by (rule ramp_down_ge)
  moreover have "ramp_down_due ?s' request ts" using Cons.prems(2) by simp
  ultimately have "unat (ramp_down_target_current (ramp_down_run ?s' request ts)) =
           max (unat request) (unat (ramp_down_target_current ?s') - 5 * length ts)"
    by (rule Cons.IH)
  then show ?case by (simp add: step max_steps)
qed

text \<open>
  Claim C6. An enabled ramp-down call that finds the request strictly below the ramp
  target and at least 10 ms elapsed on its 16-bit time difference lowers the ramp target
  by exactly 5, or by the remaining difference when that is smaller than 5, returns the
  new ramp target, and does not go below the request. Over a run with a sustained
  request in which every such call is due, the ramp target after \<open>n\<close> calls is the
  start value minus \<open>5 * n\<close>, stopped at the request: it reaches the request and never
  undershoots it.
\<close>

theorem ramp_down_reaches_request:
  "(enable \<and> request < ramp_down_target_current s
      \<and> 10 \<le> time_diff16 now (last_ramp_down_decrement_ms s) \<longrightarrow>
        ramp_down_target_current (fst (apply_current_ramp_down s now request enable)) =
          (if 5 \<le> ramp_down_target_current s - request
           then ramp_down_target_current s - 5 else request)
      \<and> snd (apply_current_ramp_down s now request enable) =
          ramp_down_target_current (fst (apply_current_ramp_down s now request enable))
      \<and> request \<le> snd (apply_current_ramp_down s now request enable))
   \<and> (request \<le> ramp_down_target_current s \<and> ramp_down_due s request ts \<longrightarrow>
        unat (ramp_down_target_current (ramp_down_run s request ts)) =
          max (unat request) (unat (ramp_down_target_current s) - 5 * length ts))"
proof (intro conjI impI)
  assume h: "enable \<and> request < ramp_down_target_current s
      \<and> 10 \<le> time_diff16 now (last_ramp_down_decrement_ms s)"
  then show "ramp_down_target_current (fst (apply_current_ramp_down s now request enable)) =
          (if 5 \<le> ramp_down_target_current s - request
           then ramp_down_target_current s - 5 else request)"
    by (simp add: ramp_down_step)
  show "snd (apply_current_ramp_down s now request enable) =
          ramp_down_target_current (fst (apply_current_ramp_down s now request enable))"
    by (simp add: ramp_down_target_is_output)
  from h have "request \<le> ramp_down_target_current s" by (simp add: less_imp_le)
  then show "request \<le> snd (apply_current_ramp_down s now request enable)"
    unfolding ramp_down_target_is_output[symmetric] by (rule ramp_down_ge)
next
  assume "request \<le> ramp_down_target_current s \<and> ramp_down_due s request ts"
  then show "unat (ramp_down_target_current (ramp_down_run s request ts)) =
          max (unat request) (unat (ramp_down_target_current s) - 5 * length ts)"
    by (simp add: ramp_down_run_closed_form)
qed

text \<open>From a ramp target of 23 and a sustained request of 10, with calls at clock 10, 20
  and 30: the ramp target goes 18, 13, 10.\<close>

theorem ramp_down_reaches_request_witness:
  "(10 :: u8) < ramp_down_target_current
        \<lparr>ramp_down_target_current = 23, last_ramp_down_decrement_ms = 0\<rparr>
   \<and> 10 \<le> time_diff16 10 (last_ramp_down_decrement_ms
        \<lparr>ramp_down_target_current = 23, last_ramp_down_decrement_ms = 0\<rparr>)
   \<and> apply_current_ramp_down
        \<lparr>ramp_down_target_current = 23, last_ramp_down_decrement_ms = 0\<rparr> 10 10 True
      = (\<lparr>ramp_down_target_current = 18, last_ramp_down_decrement_ms = 10\<rparr>, 18)
   \<and> ramp_down_due \<lparr>ramp_down_target_current = 23, last_ramp_down_decrement_ms = 0\<rparr>
        10 [10, 20, 30]
   \<and> ramp_down_target_current (ramp_down_run
        \<lparr>ramp_down_target_current = 23, last_ramp_down_decrement_ms = 0\<rparr> 10 [10, 20, 30])
      = 10"
  using ramp_down_reaches_request
    [where enable = True and request = 10 and now = 10 and ts = "[10, 20, 30]"
       and s = "\<lparr>ramp_down_target_current = 23, last_ramp_down_decrement_ms = 0\<rparr>"]
  by (simp add: apply_current_ramp_down_def time_diff16_def Let_def
        CURRENT_RAMP_DOWN_PERCENT_10MS_def)

text \<open>
  Claim C9. The decrement path of the ramp-down shaper is guarded by the enable flag and
  by the request being strictly below the ramp target, and by nothing else: there is no
  threshold on the magnitude of the ramp target. A call behaves the same when the ramp
  target and the request are both shifted by the same amount \<open>k\<close> (no value passing
  255), so it does not matter on which side of 50 the ramp target lies; and every
  enabled, due call with the request below the ramp target lowers the ramp target.
\<close>

theorem ramp_down_no_magnitude_threshold:
  "(unat (ramp_down_target_current s) + unat k < 256 \<and> unat target_current + unat k < 256
    \<longrightarrow>
      apply_current_ramp_down (s\<lparr>ramp_down_target_current := ramp_down_target_current s + k\<rparr>)
        now (target_current + k) enable
      = (let (s', out) = apply_current_ramp_down s now target_current enable
         in (s'\<lparr>ramp_down_target_current := ramp_down_target_current s' + k\<rparr>, out + k)))
   \<and> (enable \<and> target_current < ramp_down_target_current s
        \<and> 10 \<le> time_diff16 now (last_ramp_down_decrement_ms s) \<longrightarrow>
      snd (apply_current_ramp_down s now target_current enable) < ramp_down_target_current s)"
proof (intro conjI impI)
  assume h: "unat (ramp_down_target_current s) + unat k < 256
      \<and> unat target_current + unat k < 256"
  have 1: "unat (ramp_down_target_current s + k) = unat (ramp_down_target_current s) + unat k"
    using h by (simp add: unat_add_lem[THEN iffD1])
  have 2: "unat (target_current + k) = unat target_current + unat k"
    using h by (simp add: unat_add_lem[THEN iffD1])
  have lt: "(target_current + k < ramp_down_target_current s + k)
      = (target_current < ramp_down_target_current s)"
    by (simp add: word_less_nat_alt 1 2)
  show "apply_current_ramp_down (s\<lparr>ramp_down_target_current := ramp_down_target_current s + k\<rparr>)
        now (target_current + k) enable
      = (let (s', out) = apply_current_ramp_down s now target_current enable
         in (s'\<lparr>ramp_down_target_current := ramp_down_target_current s' + k\<rparr>, out + k))"
    by (simp add: apply_current_ramp_down_def Let_def lt)
next
  assume h: "enable \<and> target_current < ramp_down_target_current s
      \<and> 10 \<le> time_diff16 now (last_ramp_down_decrement_ms s)"
  then have lt: "target_current < ramp_down_target_current s" by simp
  have "(if 5 \<le> ramp_down_target_current s - target_current
         then ramp_down_target_current s - 5 else target_current) < ramp_down_target_current s"
  proof (cases "5 \<le> ramp_down_target_current s - target_current")
    case True
    from unat_minus_5[OF lt True] unat_diff_below(2)[OF lt] show ?thesis
      using True by (simp add: word_less_nat_alt)
  next
    case False
    with lt show ?thesis by simp
  qed
  with h show "snd (apply_current_ramp_down s now target_current enable)
      < ramp_down_target_current s"
    by (simp add: ramp_down_target_is_output[symmetric] ramp_down_step)
qed

text \<open>The same call with the ramp target at 30 (request 10) and, shifted by 60, at 90
  (request 70): both take the decrement path, to 25 and to 85.\<close>

theorem ramp_down_no_magnitude_threshold_witness:
  "unat (ramp_down_target_current
        \<lparr>ramp_down_target_current = 30, last_ramp_down_decrement_ms = 1000\<rparr>)
      + unat (60 :: u8) < 256
   \<and> unat (10 :: u8) + unat (60 :: u8) < 256
   \<and> (10 :: u8) < ramp_down_target_current
        \<lparr>ramp_down_target_current = 30, last_ramp_down_decrement_ms = 1000\<rparr>
   \<and> 10 \<le> time_diff16 1010 (last_ramp_down_decrement_ms
        \<lparr>ramp_down_target_current = 30, last_ramp_down_decrement_ms = 1000\<rparr>)
   \<and> apply_current_ramp_down
        \<lparr>ramp_down_target_current = 30, last_ramp_down_decrement_ms = 1000\<rparr> 1010 10 True
      = (\<lparr>ramp_down_target_current = 25, last_ramp_down_decrement_ms = 1010\<rparr>, 25)
   \<and> apply_current_ramp_down
        \<lparr>ramp_down_target_current = 90, last_ramp_down_decrement_ms = 1000\<rparr> 1010 70 True
      = (\<lparr>ramp_down_target_current = 85, last_ramp_down_decrement_ms = 1010\<rparr>, 85)"
  using ramp_down_no_magnitude_threshold
    [where k = 60 and target_current = 10 and now = 1010 and enable = True
       and s = "\<lparr>ramp_down_target_current = 30, last_ramp_down_decrement_ms = 1000\<rparr>"]
  by (simp add: apply_current_ramp_down_def time_diff16_def Let_def
        CURRENT_RAMP_DOWN_PERCENT_10MS_def)

subsection \<open>The whole tick\<close>

lemma ramp_up_le:
  "snd (apply_current_ramp_up s now target_current enable) \<le> target_current"
proof (cases "enable \<and> target_current > ramp_up_target_current s")
  case True
  then have lt: "unat (ramp_up_target_current s) < unat target_current"
    by (simp add: word_less_nat_alt)
  have "unat target_current < 256" using unsigned_less[of target_current] by simp
  with lt have "unat (ramp_up_target_current s + 1) = unat (ramp_up_target_current s) + 1"
    by (simp add: unat_add_lem[THEN iffD1])
  with lt have "ramp_up_target_current s + 1 \<le> target_current"
    by (simp add: word_le_nat_alt)
  with True show ?thesis
    by (auto simp: apply_current_ramp_up_def Let_def)
next
  case False
  then show ?thesis by (auto simp: apply_current_ramp_up_def)
qed

lemma ramp_down_le:
  "snd (apply_current_ramp_down s now target_current enable) \<le> target_current
   \<or> snd (apply_current_ramp_down s now target_current enable) \<le> ramp_down_target_current s"
proof (cases "enable \<and> target_current < ramp_down_target_current s")
  case True
  then have lt: "target_current < ramp_down_target_current s" by simp
  show ?thesis
  proof (cases "10 \<le> time_diff16 now (last_ramp_down_decrement_ms s)")
    case due: True
    show ?thesis
    proof (cases "5 \<le> ramp_down_target_current s - target_current")
      case ge: True
      from unat_minus_5(1)[OF lt ge]
      have "ramp_down_target_current s - 5 \<le> ramp_down_target_current s"
        by (simp add: word_le_nat_alt)
      with True due ge show ?thesis
        by (simp add: apply_current_ramp_down_def Let_def CURRENT_RAMP_DOWN_PERCENT_10MS_def)
    next
      case False
      with True due show ?thesis
        by (simp add: apply_current_ramp_down_def Let_def CURRENT_RAMP_DOWN_PERCENT_10MS_def)
    qed
  next
    case False
    with True show ?thesis
      by (simp add: apply_current_ramp_down_def Let_def)
  qed
next
  case False
  then show ?thesis by (auto simp: apply_current_ramp_down_def)
qed

text \<open>One tick: the output is at most the request, or at most the ramp target the
  ramp-down shaper held when the tick began, which is the output of the tick before.\<close>

lemma control_tick_bound:
  "snd (control_tick rnd st now request speed) \<le> request
   \<or> snd (control_tick rnd st now request speed) \<le> ramp_down_target_current (down st)"
proof -
  obtain p c1 where p: "apply_speed_limit rnd (pid st) now request speed = (p, c1)"
    by (cases "apply_speed_limit rnd (pid st) now request speed")
  obtain u c2 where u: "apply_current_ramp_up (up st) now c1 True = (u, c2)"
    by (cases "apply_current_ramp_up (up st) now c1 True")
  have "c1 \<le> request" using speed_limit_le[of rnd "pid st" now request speed] p by simp
  moreover have "c2 \<le> c1" using ramp_up_le[of "up st" now c1 True] u by simp
  ultimately have "c2 \<le> request" by (rule order_trans[rotated])
  then have "snd (apply_current_ramp_down (down st) now c2 True) \<le> request
      \<or> snd (apply_current_ramp_down (down st) now c2 True)
          \<le> ramp_down_target_current (down st)"
    using ramp_down_le[of "down st" now c2 True] by (auto intro: order_trans)
  then show ?thesis
    by (simp add: control_tick_def p u case_prod_beta)
qed

lemma control_tick_down_target:
  "ramp_down_target_current (down (fst (control_tick rnd st now request speed)))
     = snd (control_tick rnd st now request speed)"
  by (simp add: control_tick_def case_prod_beta ramp_down_target_is_output)

lemma run_ticks_Cons:
  "run_ticks rnd st ((t, request, speed) # ticks) =
     snd (control_tick rnd st t request speed)
       # run_ticks rnd (fst (control_tick rnd st t request speed)) ticks"
  by (simp add: case_prod_beta)

lemma run_ticks_bound:
  "i < length ticks \<Longrightarrow>
   run_ticks rnd st ticks ! i \<le> ramp_down_target_current (down st)
   \<or> (\<exists>j\<le>i. run_ticks rnd st ticks ! i \<le> fst (snd (ticks ! j)))"
proof (induction ticks arbitrary: st i)
  case Nil
  then show ?case by simp
next
  case (Cons tick ticks)
  obtain t request speed where tick: "tick = (t, request, speed)" by (cases tick) auto
  let ?st' = "fst (control_tick rnd st t request speed)"
  let ?out = "snd (control_tick rnd st t request speed)"
  have run: "run_ticks rnd st (tick # ticks) = ?out # run_ticks rnd ?st' ticks"
    unfolding tick by (rule run_ticks_Cons)
  have out: "?out \<le> request \<or> ?out \<le> ramp_down_target_current (down st)"
    by (rule control_tick_bound)
  show ?case
  proof (cases i)
    case 0
    have "?out \<le> ramp_down_target_current (down st) \<or> ?out \<le> request"
      using out by blast
    then have "run_ticks rnd st (tick # ticks) ! 0 \<le> ramp_down_target_current (down st)
       \<or> run_ticks rnd st (tick # ticks) ! 0 \<le> fst (snd ((tick # ticks) ! 0))"
      unfolding run by (simp add: tick)
    then show ?thesis unfolding 0 by blast
  next
    case (Suc k)
    then have "k < length ticks" using Cons.prems by simp
    from Cons.IH[OF this, of ?st']
    have "run_ticks rnd ?st' ticks ! k \<le> ?out \<or>
          (\<exists>j\<le>k. run_ticks rnd ?st' ticks ! k \<le> fst (snd (ticks ! j)))"
      by (simp add: control_tick_down_target)
    then show ?thesis
    proof
      assume a: "run_ticks rnd ?st' ticks ! k \<le> ?out"
      show ?thesis
      proof (cases "?out \<le> request")
        case True
        with a have "run_ticks rnd ?st' ticks ! k \<le> request" by (rule order_trans)
        then have "run_ticks rnd st (tick # ticks) ! i \<le> fst (snd ((tick # ticks) ! 0))"
          unfolding run Suc by (simp add: tick)
        then show ?thesis by blast
      next
        case False
        with out have "?out \<le> ramp_down_target_current (down st)"
          by blast
        with a have "run_ticks rnd ?st' ticks ! k \<le> ramp_down_target_current (down st)"
          by (rule order_trans)
        then show ?thesis unfolding run Suc by simp
      qed
    next
      assume "\<exists>j\<le>k. run_ticks rnd ?st' ticks ! k \<le> fst (snd (ticks ! j))"
      then obtain j where "j \<le> k" "run_ticks rnd ?st' ticks ! k \<le> fst (snd (ticks ! j))"
        by blast
      then have "Suc j \<le> i"
        "run_ticks rnd st (tick # ticks) ! i \<le> fst (snd ((tick # ticks) ! Suc j))"
        unfolding run Suc by simp_all
      then show ?thesis by blast
    qed
  qed
qed

text \<open>
  Claim C1, as the code has it. In every run of ticks from the initial state, with any
  clock values, requested currents and measured speeds, and whatever the rounding of the
  float arithmetic, the shaped output of a tick lies between 0 and the largest current
  requested at that tick or at an earlier tick of the run: it is at most the request of
  some tick up to this one. (The outputs are unsigned, so 0 is a lower bound.)
\<close>

theorem pipeline_output_within_requests_so_far:
  assumes "i < length ticks"
  shows "\<exists>j\<le>i. run_ticks rnd control_init ticks ! i \<le> fst (snd (ticks ! j))"
proof -
  have "ramp_down_target_current (down control_init) = 0"
    by (simp add: control_init_def ramp_down_init_def)
  with run_ticks_bound[OF assms, of rnd control_init]
  have "run_ticks rnd control_init ticks ! i \<le> 0
        \<or> (\<exists>j\<le>i. run_ticks rnd control_init ticks ! i \<le> fst (snd (ticks ! j)))"
    by simp
  then show ?thesis
  proof
    assume "run_ticks rnd control_init ticks ! i \<le> 0"
    then have "run_ticks rnd control_init ticks ! i \<le> fst (snd (ticks ! i))" by simp
    then show ?thesis by blast
  qed
qed

text \<open>A run with the wheel at rest: full request at clock 0, 31, ..., 186, then request 0
  at clock 217. The bound holds at the last tick through the requests before it.\<close>

theorem pipeline_output_within_requests_so_far_witness:
  "7 < length
        ([(0, 100, 0), (31, 100, 0), (62, 100, 0), (93, 100, 0), (124, 100, 0),
          (155, 100, 0), (186, 100, 0), (217, 0, 0)] :: (u32 \<times> u8 \<times> u16) list)
   \<and> (\<exists>j\<le>7.
        run_ticks (\<lambda>x. x) control_init
        ([(0, 100, 0), (31, 100, 0), (62, 100, 0), (93, 100, 0), (124, 100, 0),
          (155, 100, 0), (186, 100, 0), (217, 0, 0)] :: (u32 \<times> u8 \<times> u16) list) ! 7
        \<le> fst (snd (
        ([(0, 100, 0), (31, 100, 0), (62, 100, 0), (93, 100, 0), (124, 100, 0),
          (155, 100, 0), (186, 100, 0), (217, 0, 0)] :: (u32 \<times> u8 \<times> u16) list) ! j)))"
proof -
  have h: "7 < length
        ([(0, 100, 0), (31, 100, 0), (62, 100, 0), (93, 100, 0), (124, 100, 0),
          (155, 100, 0), (186, 100, 0), (217, 0, 0)] :: (u32 \<times> u8 \<times> u16) list)"
    by simp
  from h pipeline_output_within_requests_so_far[OF h, of "\<lambda>x. x"] show ?thesis
    by (rule conjI)
qed

text \<open>The claim as the specification states it (the output of a tick is at most the
  request of that same tick) fails on that run: the ramp-up has brought the output to 6
  when the request drops to 0, and the ramp-down shaper lets the output fall by 5 only,
  so the last tick returns 1 for a request of 0. (The PID output at rest is about 283,
  far above the request, so the rounding of the float arithmetic plays no part; the run
  is evaluated in exact arithmetic.)\<close>

theorem pipeline_output_exceeds_request:
  "run_ticks (\<lambda>x. x) control_init
        ([(0, 100, 0), (31, 100, 0), (62, 100, 0), (93, 100, 0), (124, 100, 0),
          (155, 100, 0), (186, 100, 0), (217, 0, 0)] :: (u32 \<times> u8 \<times> u16) list)
     = [0, 1, 2, 3, 4, 5, 6, 1]
   \<and> \<not> (run_ticks (\<lambda>x. x) control_init
        ([(0, 100, 0), (31, 100, 0), (62, 100, 0), (93, 100, 0), (124, 100, 0),
          (155, 100, 0), (186, 100, 0), (217, 0, 0)] :: (u32 \<times> u8 \<times> u16) list) ! 7
        \<le> fst (snd (
        ([(0, 100, 0), (31, 100, 0), (62, 100, 0), (93, 100, 0), (124, 100, 0),
          (155, 100, 0), (186, 100, 0), (217, 0, 0)] :: (u32 \<times> u8 \<times> u16) list) ! 7)))"
  by (simp add: stage_defs)

end
